theory Spec2Isabelle
  imports
    Complex_Main
    "HOL-Library.Sublist"
    "HOL-Library.Multiset"
    "HOL-Library.Char_ord"
    "HOL-Library.List_Lexorder"
begin

section \<open>Data model\<close>

text \<open>
  The interface \<^verbatim>\<open>Product\<close> of the product type definitions, field by field (\<^verbatim>\<open>id\<close> is
  \<open>product_id\<close> here). A TypeScript \<^verbatim>\<open>number\<close> is a rational: every finite double is
  one, comparisons of finite doubles agree with those of the rationals, and the sign of a
  difference of two finite doubles is the sign of the exact difference. \<^verbatim>\<open>NaN\<close> and the
  infinities are outside the model. An optional field is an \<open>option\<close>.
\<close>

record product =
  product_id :: string
  name :: string
  price :: rat
  originalPrice :: "rat option"
  image :: string
  alt :: "string option"
  rating :: rat
  reviewCount :: "rat option"
  badge :: "string option"
  category :: string

text \<open>\<^verbatim>\<open>priceRange?: { min: number; max: number }\<close>\<close>

record price_range =
  min_val :: rat
  max_val :: rat

text \<open>
  \<^verbatim>\<open>FilterCriteria\<close>; the record without \<open>categories\<close> is
  \<^verbatim>\<open>Omit<FilterCriteria, 'categories'>\<close>, the type of \<^verbatim>\<open>additionalCriteria\<close>.
\<close>

record additional_criteria =
  priceRange :: "price_range option"
  minRating :: "rat option"
  searchTerm :: "string option"

record filter_criteria = additional_criteria +
  categories :: "string list option"

section \<open>String built-ins\<close>

text \<open>
  A string is a list of code units below 256 (the Latin-1 range of UTF-16). On that range
  \<^verbatim>\<open>String.prototype.trim\<close> strips the code units 9 to 13, 32 and 160, and
  \<^verbatim>\<open>String.prototype.toLowerCase\<close> adds 32 to A..Z and to the accented capitals 192..222
  other than the multiplication sign 215.
\<close>

definition isWhiteSpace :: "char \<Rightarrow> bool" where
  "isWhiteSpace c = (let n = (of_char c :: nat) in (9 \<le> n \<and> n \<le> 13) \<or> n = 32 \<or> n = 160)"

definition trim :: "string \<Rightarrow> string" where
  "trim s = rev (dropWhile isWhiteSpace (rev (dropWhile isWhiteSpace s)))"

definition toLowerChar :: "char \<Rightarrow> char" where
  "toLowerChar c =
     (let n = (of_char c :: nat) in
      if (65 \<le> n \<and> n \<le> 90) \<or> (192 \<le> n \<and> n \<le> 214) \<or> (216 \<le> n \<and> n \<le> 222)
      then char_of (n + 32) else c)"

definition toLowerCase :: "string \<Rightarrow> string" where
  "toLowerCase s = map toLowerChar s"

text \<open>\<^verbatim>\<open>s.includes(t)\<close>: \<open>t\<close> starts at some position of \<open>s\<close>.\<close>

fun includes_str :: "string \<Rightarrow> string \<Rightarrow> bool" where
  "includes_str [] t = (t = [])"
| "includes_str (c # s) t = (prefix t (c # s) \<or> includes_str s t)"

section \<open>Array.prototype.sort\<close>

text \<open>
  ECMAScript (2019 and later) specifies \<^verbatim>\<open>Array.prototype.sort\<close> as a stable sort: for a
  consistent comparator the result is the one sorted arrangement of the elements in which
  elements that compare equal keep their order. Stable insertion sort computes that
  arrangement; the element \<open>x\<close> moves behind \<open>y\<close> exactly when the comparator is positive.
\<close>

fun insert_by :: "('a \<Rightarrow> 'a \<Rightarrow> rat) \<Rightarrow> 'a \<Rightarrow> 'a list \<Rightarrow> 'a list" where
  "insert_by cmp x [] = [x]"
| "insert_by cmp x (y # ys) = (if cmp x y > 0 then y # insert_by cmp x ys else x # y # ys)"

definition array_sort :: "('a \<Rightarrow> 'a \<Rightarrow> rat) \<Rightarrow> 'a list \<Rightarrow> 'a list" where
  "array_sort cmp xs = foldr (insert_by cmp) xs []"

text \<open>
  The comparator \<^verbatim>\<open>sort()\<close> uses when none is given: strings compared by code units.
\<close>

definition default_compare :: "string \<Rightarrow> string \<Rightarrow> rat" where
  "default_compare a b = (if a < b then -1 else if b < a then 1 else 0)"

text \<open>
  ECMAScript's definition of a consistent comparator (that a call always returns the same
  value holds of every HOL function). \<^verbatim>\<open>String.prototype.localeCompare\<close> is required to be
  one; which one depends on the host's locale, so \<open>sortProducts\<close> takes it as a parameter.
\<close>

definition consistent_comparator :: "('a \<Rightarrow> 'a \<Rightarrow> rat) \<Rightarrow> bool" where
  "consistent_comparator cmp \<longleftrightarrow>
     (\<forall>a. cmp a a = 0) \<and>
     (\<forall>a b. cmp a b = 0 \<longrightarrow> cmp b a = 0) \<and>
     (\<forall>a b c. cmp a b = 0 \<and> cmp b c = 0 \<longrightarrow> cmp a c = 0) \<and>
     (\<forall>a b c. cmp a b < 0 \<and> cmp b c < 0 \<longrightarrow> cmp a c < 0) \<and>
     (\<forall>a b c. cmp a b > 0 \<and> cmp b c > 0 \<longrightarrow> cmp a c > 0)"

section \<open>product-filter.ts\<close>

text \<open>The callback of \<^verbatim>\<open>products.filter\<close>, one branch for each early return.\<close>

definition matchesCriteria :: "filter_criteria \<Rightarrow> product \<Rightarrow> bool" where
  "matchesCriteria criteria product =
     (if (case categories criteria of
            Some cs \<Rightarrow> length cs > 0 \<and> \<not> (category product \<in> set cs)
          | None \<Rightarrow> False) then False
      else if (case priceRange criteria of
            Some r \<Rightarrow> price product < min_val r \<or> price product > max_val r
          | None \<Rightarrow> False) then False
      else if (case minRating criteria of
            Some m \<Rightarrow> rating product < m
          | None \<Rightarrow> False) then False
      else if (case searchTerm criteria of
            Some t \<Rightarrow> t \<noteq> [] \<and> length (trim t) > 0 \<and>
              (let searchLower = toLowerCase t;
                   nameMatches = includes_str (toLowerCase (name product)) searchLower
               in \<not> nameMatches)
          | None \<Rightarrow> False) then False
      else True)"

definition filterProducts :: "product list \<Rightarrow> filter_criteria \<Rightarrow> product list" where
  "filterProducts products criteria = filter (matchesCriteria criteria) products"

text \<open>\<^verbatim>\<open>Array.from(new Set(xs))\<close>: the distinct elements in the order of first occurrence.\<close>

definition set_add :: "'a list \<Rightarrow> 'a \<Rightarrow> 'a list" where
  "set_add s x = (if x \<in> set s then s else s @ [x])"

definition new_Set :: "'a list \<Rightarrow> 'a list" where
  "new_Set xs = foldl set_add [] xs"

definition getCategories :: "product list \<Rightarrow> string list" where
  "getCategories products =
     (let categories = new_Set (map category products)
      in array_sort default_compare categories)"

text \<open>
  \<^verbatim>\<open>counts\<close> is an object literal, so a property it does not own is looked up in
  \<^verbatim>\<open>Object.prototype\<close>. The values met are numbers (counts are naturals), \<^verbatim>\<open>NaN\<close>,
  \<^verbatim>\<open>undefined\<close> and the inherited members, which are functions or, for \<^verbatim>\<open>__proto__\<close>, the
  prototype object itself.
\<close>

datatype jsvalue = Number nat | NaN | Undefined | Inherited

type_synonym counts = "string \<rightharpoonup> jsvalue"

definition object_prototype_keys :: "string list" where
  "object_prototype_keys =
     [''constructor'', ''hasOwnProperty'', ''isPrototypeOf'', ''propertyIsEnumerable'',
      ''toLocaleString'', ''toString'', ''valueOf'', ''__proto__'',
      ''__defineGetter__'', ''__defineSetter__'', ''__lookupGetter__'', ''__lookupSetter__'']"

definition obj_get :: "counts \<Rightarrow> string \<Rightarrow> jsvalue" where
  "obj_get obj k =
     (case obj k of
        Some v \<Rightarrow> v
      | None \<Rightarrow> if k \<in> set object_prototype_keys then Inherited else Undefined)"

text \<open>
  An assignment creates or updates an own property, except for \<^verbatim>\<open>__proto__\<close>: that one is
  an accessor of the prototype whose setter ignores a value that is no object.
\<close>

definition obj_set :: "counts \<Rightarrow> string \<Rightarrow> jsvalue \<Rightarrow> counts" where
  "obj_set obj k v = (if k = ''__proto__'' then obj else obj(k \<mapsto> v))"

fun truthy :: "jsvalue \<Rightarrow> bool" where
  "truthy (Number n) = (n \<noteq> 0)"
| "truthy NaN = False"
| "truthy Undefined = False"
| "truthy Inherited = True"

text \<open>The value \<^verbatim>\<open>v++\<close> stores: a function or an object converts to \<^verbatim>\<open>NaN\<close>.\<close>

fun increment :: "jsvalue \<Rightarrow> jsvalue" where
  "increment (Number n) = Number (n + 1)"
| "increment NaN = NaN"
| "increment Undefined = NaN"
| "increment Inherited = NaN"

text \<open>The body of the \<^verbatim>\<open>forEach\<close> callback.\<close>

definition count_step :: "counts \<Rightarrow> product \<Rightarrow> counts" where
  "count_step counts product =
     (let counts1 = (if \<not> truthy (obj_get counts (category product))
                     then obj_set counts (category product) (Number 0) else counts)
      in obj_set counts1 (category product) (increment (obj_get counts1 (category product))))"

definition countProductsByCategory :: "product list \<Rightarrow> counts" where
  "countProductsByCategory products = foldl count_step Map.empty products"

text \<open>
  \<^verbatim>\<open>Math.min(...prices)\<close> and \<^verbatim>\<open>Math.max(...prices)\<close> for a non-empty \<open>prices\<close>. The spread
  passes every price as an argument of one call, and an engine accepts only so many arguments
  (the number depends on the engine and on its stack): beyond \<open>maxArguments\<close> the call throws
  a \<^verbatim>\<open>RangeError\<close>, which nothing in \<open>getPriceRange\<close> catches.
\<close>

datatype js_error = RangeError

fun Math_min :: "rat \<Rightarrow> rat list \<Rightarrow> rat" where
  "Math_min m [] = m"
| "Math_min m (x # xs) = Math_min (if x < m then x else m) xs"

fun Math_max :: "rat \<Rightarrow> rat list \<Rightarrow> rat" where
  "Math_max m [] = m"
| "Math_max m (x # xs) = Math_max (if x > m then x else m) xs"

definition getPriceRange :: "nat \<Rightarrow> product list \<Rightarrow> js_error + price_range" where
  "getPriceRange maxArguments products =
     (if length products = 0 then Inr \<lparr>min_val = 0, max_val = 0\<rparr>
      else
        let prices = map price products in
        if length prices > maxArguments then Inl RangeError
        else (case prices of
                p # ps \<Rightarrow> Inr \<lparr>min_val = Math_min p ps, max_val = Math_max p ps\<rparr>
              | [] \<Rightarrow> Inr \<lparr>min_val = 0, max_val = 0\<rparr>))"

text \<open>
  The object literal with the spread: \<open>categories\<close> from the selection, every other field
  from \<^verbatim>\<open>additionalCriteria\<close> when it is given.
\<close>

definition filterByCategories ::
  "product list \<Rightarrow> string list \<Rightarrow> additional_criteria option \<Rightarrow> product list" where
  "filterByCategories products selectedCategories additionalCriteria =
     filterProducts products
       (case additionalCriteria of
          None \<Rightarrow>
            \<lparr>priceRange = None, minRating = None, searchTerm = None,
             categories = (if length selectedCategories > 0 then Some selectedCategories else None)\<rparr>
        | Some a \<Rightarrow>
            \<lparr>priceRange = priceRange a, minRating = minRating a, searchTerm = searchTerm a,
             categories = (if length selectedCategories > 0 then Some selectedCategories else None)\<rparr>)"

section \<open>product-sorter.ts\<close>

text \<open>\<^verbatim>\<open>p.reviewCount || 0\<close>\<close>

definition reviewCountOr0 :: "product \<Rightarrow> rat" where
  "reviewCountOr0 p = (case reviewCount p of None \<Rightarrow> 0 | Some n \<Rightarrow> if n = 0 then 0 else n)"

text \<open>
  The \<^verbatim>\<open>switch\<close> on the option, which at run time is any string; \<open>localeCompare\<close> is the
  host's \<^verbatim>\<open>String.prototype.localeCompare\<close>.
\<close>

definition sortProducts ::
  "(string \<Rightarrow> string \<Rightarrow> rat) \<Rightarrow> product list \<Rightarrow> string \<Rightarrow> product list" where
  "sortProducts localeCompare products sortOption =
     (let sorted = products in
      if sortOption = ''name-asc'' then
        array_sort (\<lambda>a b. localeCompare (name a) (name b)) sorted
      else if sortOption = ''name-desc'' then
        array_sort (\<lambda>a b. localeCompare (name b) (name a)) sorted
      else if sortOption = ''price-asc'' then
        array_sort (\<lambda>a b. price a - price b) sorted
      else if sortOption = ''price-desc'' then
        array_sort (\<lambda>a b. price b - price a) sorted
      else if sortOption = ''rating'' then
        array_sort (\<lambda>a b.
          if rating b \<noteq> rating a then rating b - rating a
          else reviewCountOr0 b - reviewCountOr0 a) sorted
      else if sortOption = ''reviews'' then
        array_sort (\<lambda>a b.
          let aReviews = reviewCountOr0 a; bReviews = reviewCountOr0 b in
          if bReviews \<noteq> aReviews then bReviews - aReviews
          else rating b - rating a) sorted
      else sorted)"

definition recognized_options :: "string list" where
  "recognized_options =
     [''name-asc'', ''name-desc'', ''price-asc'', ''price-desc'', ''rating'', ''reviews'']"

section \<open>Sample products and the properties to verify\<close>

text \<open>The two products of the spec's concrete scenario, and two more.\<close>

definition productA :: product where
  "productA = \<lparr>product_id = ''A'', name = ''Zed'', price = 10, originalPrice = None,
     image = ''a.png'', alt = None, rating = 4, reviewCount = Some 5, badge = None,
     category = ''X''\<rparr>"

definition productB :: product where
  "productB = \<lparr>product_id = ''B'', name = ''Ann'', price = 20, originalPrice = None,
     image = ''b.png'', alt = None, rating = 4, reviewCount = Some 50, badge = None,
     category = ''Y''\<rparr>"

definition productC :: product where
  "productC = \<lparr>product_id = ''C'', name = ''Zed'', price = 10, originalPrice = Some 12,
     image = ''c.png'', alt = None, rating = 9 / 2, reviewCount = None, badge = None,
     category = ''X''\<rparr>"

text \<open>
  The orders and predicates of the properties, in the words of the specification: a missing
  review count is zero; \<open>rating_order a b\<close> and \<open>reviews_order a b\<close> say that \<open>a\<close> may
  stand before \<open>b\<close>; \<open>same_sort_keys\<close> says that two products agree on the primary key
  of the option and on its tie-break key.
\<close>

definition reviews_or_zero :: "product \<Rightarrow> rat" where
  "reviews_or_zero p = (case reviewCount p of None \<Rightarrow> 0 | Some n \<Rightarrow> n)"

definition rating_order :: "product \<Rightarrow> product \<Rightarrow> bool" where
  "rating_order a b \<longleftrightarrow>
     rating a > rating b \<or> (rating a = rating b \<and> reviews_or_zero a \<ge> reviews_or_zero b)"

definition reviews_order :: "product \<Rightarrow> product \<Rightarrow> bool" where
  "reviews_order a b \<longleftrightarrow>
     reviews_or_zero a > reviews_or_zero b \<or>
     (reviews_or_zero a = reviews_or_zero b \<and> rating a \<ge> rating b)"

definition same_sort_keys ::
  "(string \<Rightarrow> string \<Rightarrow> rat) \<Rightarrow> string \<Rightarrow> product \<Rightarrow> product \<Rightarrow> bool" where
  "same_sort_keys localeCompare sortOption a b =
     (if sortOption = ''name-asc'' \<or> sortOption = ''name-desc'' then
        localeCompare (name a) (name b) = 0
      else if sortOption = ''price-asc'' \<or> sortOption = ''price-desc'' then
        price a = price b
      else rating a = rating b \<and> reviews_or_zero a = reviews_or_zero b)"

text \<open>
  The conjunction of the supplied criteria, twice. In \<open>satisfies_criteria\<close> the search
  criterion compares the name with the term as it was supplied, which is what the filter does;
  in \<open>satisfies_criteria_trimmed\<close> it compares the name with the trimmed term, which is what
  the specification of the search criterion says. The two differ in nothing else.
\<close>

definition satisfies_criteria :: "filter_criteria \<Rightarrow> product \<Rightarrow> bool" where
  "satisfies_criteria criteria p \<longleftrightarrow>
     (case categories criteria of None \<Rightarrow> True | Some cs \<Rightarrow> cs = [] \<or> category p \<in> set cs) \<and>
     (case priceRange criteria of None \<Rightarrow> True
        | Some r \<Rightarrow> min_val r \<le> price p \<and> price p \<le> max_val r) \<and>
     (case minRating criteria of None \<Rightarrow> True | Some m \<Rightarrow> rating p \<ge> m) \<and>
     (case searchTerm criteria of None \<Rightarrow> True
        | Some t \<Rightarrow> trim t = [] \<or> sublist (toLowerCase t) (toLowerCase (name p)))"

definition satisfies_criteria_trimmed :: "filter_criteria \<Rightarrow> product \<Rightarrow> bool" where
  "satisfies_criteria_trimmed criteria p \<longleftrightarrow>
     (case categories criteria of None \<Rightarrow> True | Some cs \<Rightarrow> cs = [] \<or> category p \<in> set cs) \<and>
     (case priceRange criteria of None \<Rightarrow> True
        | Some r \<Rightarrow> min_val r \<le> price p \<and> price p \<le> max_val r) \<and>
     (case minRating criteria of None \<Rightarrow> True | Some m \<Rightarrow> rating p \<ge> m) \<and>
     (case searchTerm criteria of None \<Rightarrow> True
        | Some t \<Rightarrow> trim t = [] \<or> sublist (toLowerCase (trim t)) (toLowerCase (name p)))"

text \<open>The search criterion in the reading that matches the trimmed term.\<close>

definition search_criterion_trimmed :: "string \<Rightarrow> product \<Rightarrow> bool" where
  "search_criterion_trimmed t p \<longleftrightarrow>
     trim t = [] \<or> sublist (toLowerCase (trim t)) (toLowerCase (name p))"

definition only_searchTerm :: "string \<Rightarrow> filter_criteria" where
  "only_searchTerm t = \<lparr>priceRange = None, minRating = None, searchTerm = Some t, categories = None\<rparr>"

definition productD :: product where
  "productD = \<lparr>product_id = ''D'', name = ''Kit'', price = 5, originalPrice = None,
     image = ''d.png'', alt = None, rating = 3, reviewCount = None, badge = None,
     category = ''constructor''\<rparr>"

definition sample_criteria :: filter_criteria where
  "sample_criteria = \<lparr>priceRange = Some \<lparr>min_val = 5, max_val = 15\<rparr>, minRating = Some 4,
     searchTerm = Some ''ze'', categories = Some [''X'']\<rparr>"

text \<open>The number a count stands for, and the counts objects in which every entry is a positive number.\<close>

definition count_value :: "jsvalue \<Rightarrow> nat" where
  "count_value v = (case v of Number n \<Rightarrow> n | _ \<Rightarrow> 0)"

definition good_counts :: "counts \<Rightarrow> bool" where
  "good_counts m \<longleftrightarrow> (\<forall>k v. m k = Some v \<longrightarrow> (\<exists>n>0. v = Number n))"

section \<open>The sort\<close>

lemma mset_insert_by: "mset (insert_by cmp x ys) = add_mset x (mset ys)"
  by (induction ys) simp_all

lemma mset_array_sort: "mset (array_sort cmp xs) = mset xs"
  by (induction xs) (simp_all add: array_sort_def mset_insert_by)

lemma array_sort_Cons: "array_sort cmp (x # xs) = insert_by cmp x (array_sort cmp xs)"
  by (simp add: array_sort_def)

lemma array_sort_Nil: "array_sort cmp [] = []"
  by (simp add: array_sort_def)

lemma consistent_flip:
  assumes "consistent_comparator cmp" and "cmp x y > 0"
  shows "cmp y x < 0"
proof -
  have r: "cmp x x = 0" using assms(1) by (simp add: consistent_comparator_def)
  have "cmp y x \<noteq> 0"
  proof
    assume "cmp y x = 0"
    with assms(1) have "cmp x y = 0" unfolding consistent_comparator_def by blast
    with assms(2) show False by simp
  qed
  moreover have "\<not> cmp y x > 0"
  proof
    assume "cmp y x > 0"
    with assms have "cmp x x > 0" unfolding consistent_comparator_def by blast
    with r show False by simp
  qed
  ultimately show ?thesis by linarith
qed

lemma consistent_flip_neg:
  assumes "consistent_comparator cmp" and "cmp x y < 0"
  shows "cmp y x > 0"
proof -
  have r: "cmp x x = 0" using assms(1) by (simp add: consistent_comparator_def)
  have "cmp y x \<noteq> 0"
  proof
    assume "cmp y x = 0"
    with assms(1) have "cmp x y = 0" unfolding consistent_comparator_def by blast
    with assms(2) show False by simp
  qed
  moreover have "\<not> cmp y x < 0"
  proof
    assume "cmp y x < 0"
    with assms have "cmp x x < 0" unfolding consistent_comparator_def by blast
    with r show False by simp
  qed
  ultimately show ?thesis by linarith
qed

lemma consistent_trans_le:
  assumes c: "consistent_comparator cmp" and ab: "cmp a b \<le> 0" and bc: "cmp b c \<le> 0"
  shows "cmp a c \<le> 0"
proof (rule ccontr)
  assume "\<not> cmp a c \<le> 0"
  then have ac: "cmp a c > 0" by simp
  then have ca: "cmp c a < 0" by (rule consistent_flip [OF c])
  show False
  proof (cases "cmp a b < 0")
    case True
    with ca c have "cmp c b < 0" unfolding consistent_comparator_def by blast
    then have "cmp b c > 0" by (rule consistent_flip_neg [OF c])
    with bc show False by simp
  next
    case False
    with ab have ab0: "cmp a b = 0" by simp
    then have ba0: "cmp b a = 0" using c unfolding consistent_comparator_def by blast
    show False
    proof (cases "cmp b c = 0")
      case True
      with ab0 c have "cmp a c = 0" unfolding consistent_comparator_def by blast
      with ac show False by simp
    next
      case False
      with bc have "cmp b c < 0" by simp
      with ca c have "cmp b a < 0" unfolding consistent_comparator_def by blast
      with ba0 show False by simp
    qed
  qed
qed

lemma consistent_eq_gt:
  assumes c: "consistent_comparator cmp" and qx: "cmp q x = 0" and xy: "cmp x y > 0"
  shows "cmp q y \<noteq> 0"
proof
  assume "cmp q y = 0"
  moreover from c qx have "cmp x q = 0" unfolding consistent_comparator_def by blast
  ultimately have "cmp x y = 0" using c unfolding consistent_comparator_def by blast
  with xy show False by simp
qed

lemma set_insert_by: "set (insert_by cmp x ys) = insert x (set ys)"
  by (induction ys) auto

lemma sorted_insert_by:
  assumes c: "consistent_comparator cmp"
  shows "sorted_wrt (\<lambda>a b. cmp a b \<le> 0) ys \<Longrightarrow> sorted_wrt (\<lambda>a b. cmp a b \<le> 0) (insert_by cmp x ys)"
proof (induction ys)
  case Nil
  then show ?case by simp
next
  case (Cons y ys)
  show ?case
  proof (cases "cmp x y > 0")
    case True
    then have "cmp y x < 0" by (rule consistent_flip [OF c])
    then have yx: "cmp y x \<le> 0" by simp
    from Cons have "sorted_wrt (\<lambda>a b. cmp a b \<le> 0) (insert_by cmp x ys)" by simp
    moreover from Cons.prems yx have "\<forall>z \<in> set (insert_by cmp x ys). cmp y z \<le> 0"
      by (simp add: set_insert_by)
    ultimately show ?thesis using True by simp
  next
    case False
    then have xy: "cmp x y \<le> 0" by simp
    have "\<forall>z \<in> set ys. cmp x z \<le> 0"
    proof
      fix z assume "z \<in> set ys"
      with Cons.prems have "cmp y z \<le> 0" by simp
      with xy show "cmp x z \<le> 0" by (rule consistent_trans_le [OF c])
    qed
    with xy Cons.prems False show ?thesis by simp
  qed
qed

lemma sorted_array_sort:
  "consistent_comparator cmp \<Longrightarrow> sorted_wrt (\<lambda>a b. cmp a b \<le> 0) (array_sort cmp xs)"
  by (induction xs) (simp_all add: array_sort_Nil array_sort_Cons sorted_insert_by)

lemma insert_by_sorted:
  "sorted_wrt (\<lambda>a b. cmp a b \<le> 0) (x # ys) \<Longrightarrow> insert_by cmp x ys = x # ys"
  by (cases ys) auto

lemma array_sort_sorted:
  "sorted_wrt (\<lambda>a b. cmp a b \<le> 0) xs \<Longrightarrow> array_sort cmp xs = xs"
proof (induction xs)
  case Nil
  then show ?case by (simp add: array_sort_Nil)
next
  case (Cons x xs)
  then have "array_sort cmp xs = xs" by simp
  with Cons.prems show ?case by (simp only: array_sort_Cons insert_by_sorted)
qed

lemma array_sort_idem:
  "consistent_comparator cmp \<Longrightarrow> array_sort cmp (array_sort cmp xs) = array_sort cmp xs"
  by (rule array_sort_sorted) (rule sorted_array_sort)

lemma filter_insert_by:
  assumes c: "consistent_comparator cmp"
  shows "filter (\<lambda>p. cmp q p = 0) (insert_by cmp x ys) =
         (if cmp q x = 0 then x # filter (\<lambda>p. cmp q p = 0) ys else filter (\<lambda>p. cmp q p = 0) ys)"
proof (induction ys)
  case Nil
  then show ?case by simp
next
  case (Cons y ys)
  show ?case
  proof (cases "cmp x y > 0")
    case True
    have "cmp q x = 0 \<Longrightarrow> cmp q y \<noteq> 0" by (rule consistent_eq_gt [OF c _ True])
    with True Cons show ?thesis by auto
  next
    case False
    then show ?thesis by simp
  qed
qed

lemma array_sort_stable:
  "consistent_comparator cmp \<Longrightarrow>
   filter (\<lambda>p. cmp q p = 0) (array_sort cmp xs) = filter (\<lambda>p. cmp q p = 0) xs"
  by (induction xs) (simp_all add: array_sort_Nil array_sort_Cons filter_insert_by)


lemma includes_str_sublist: "includes_str s t \<longleftrightarrow> sublist t s"
  by (induction s) (auto simp: sublist_Cons_right)

lemma reviewCountOr0_eq: "reviewCountOr0 p = reviews_or_zero p"
  by (simp add: reviewCountOr0_def reviews_or_zero_def split: option.splits)

lemma consistent_default_compare: "consistent_comparator default_compare"
  unfolding consistent_comparator_def default_compare_def by (auto split: if_splits)

lemma consistent_name_asc:
  "consistent_comparator lc \<Longrightarrow> consistent_comparator (\<lambda>a b. lc (name a) (name b))"
  unfolding consistent_comparator_def by blast

lemma consistent_name_desc:
  "consistent_comparator lc \<Longrightarrow> consistent_comparator (\<lambda>a b. lc (name b) (name a))"
  unfolding consistent_comparator_def by blast

lemma consistent_price_asc: "consistent_comparator (\<lambda>a b. price a - price b)"
  unfolding consistent_comparator_def by auto

lemma consistent_price_desc: "consistent_comparator (\<lambda>a b. price b - price a)"
  unfolding consistent_comparator_def by auto

lemma consistent_rating:
  "consistent_comparator (\<lambda>a b. if rating b \<noteq> rating a then rating b - rating a
      else reviewCountOr0 b - reviewCountOr0 a)"
  unfolding consistent_comparator_def by (auto split: if_splits)

lemma consistent_reviews:
  "consistent_comparator (\<lambda>a b. let aReviews = reviewCountOr0 a; bReviews = reviewCountOr0 b in
      if bReviews \<noteq> aReviews then bReviews - aReviews else rating b - rating a)"
  unfolding consistent_comparator_def Let_def by (auto split: if_splits)

lemma recognized_cases:
  assumes "s \<in> set recognized_options"
  obtains "s = ''name-asc''" | "s = ''name-desc''" | "s = ''price-asc''"
    | "s = ''price-desc''" | "s = ''rating''" | "s = ''reviews''"
proof -
  from assms have "s = ''name-asc'' \<or> s = ''name-desc'' \<or> s = ''price-asc''
    \<or> s = ''price-desc'' \<or> s = ''rating'' \<or> s = ''reviews''"
    unfolding recognized_options_def by (simp only: list.set insert_iff empty_iff simp_thms)
  then show thesis
    by (elim disjE) (erule that)+
qed

lemma consistent_sym: "consistent_comparator cmp \<Longrightarrow> (cmp a b = 0) = (cmp b a = 0)"
  unfolding consistent_comparator_def by blast

lemma sortProducts_name_asc:
  "sortProducts lc P ''name-asc'' = array_sort (\<lambda>a b. lc (name a) (name b)) P"
  by (simp add: sortProducts_def)

lemma sortProducts_name_desc:
  "sortProducts lc P ''name-desc'' = array_sort (\<lambda>a b. lc (name b) (name a)) P"
  by (simp add: sortProducts_def)

lemma sortProducts_price_asc:
  "sortProducts lc P ''price-asc'' = array_sort (\<lambda>a b. price a - price b) P"
  by (simp add: sortProducts_def)

lemma sortProducts_price_desc:
  "sortProducts lc P ''price-desc'' = array_sort (\<lambda>a b. price b - price a) P"
  by (simp add: sortProducts_def)

lemma sortProducts_rating:
  "sortProducts lc P ''rating'' = array_sort (\<lambda>a b.
     if rating b \<noteq> rating a then rating b - rating a
     else reviewCountOr0 b - reviewCountOr0 a) P"
  by (simp add: sortProducts_def)

lemma sortProducts_reviews:
  "sortProducts lc P ''reviews'' = array_sort (\<lambda>a b.
     let aReviews = reviewCountOr0 a; bReviews = reviewCountOr0 b in
     if bReviews \<noteq> aReviews then bReviews - aReviews else rating b - rating a) P"
  by (simp add: sortProducts_def)

lemma array_sort_stable_keys:
  assumes "consistent_comparator cmp" and "\<And>p. K p \<longleftrightarrow> cmp q p = 0"
  shows "filter K (array_sort cmp xs) = filter K xs"
proof -
  have "K = (\<lambda>p. cmp q p = 0)"
    using assms(2) by (intro ext)
  with array_sort_stable [OF assms(1), of q xs] show ?thesis
    by (simp only:)
qed

lemma same_keys_name: "same_sort_keys lc ''name-asc'' q p \<longleftrightarrow> lc (name q) (name p) = 0"
  by (simp add: same_sort_keys_def)

lemma same_keys_name_desc: "same_sort_keys lc ''name-desc'' q p \<longleftrightarrow> lc (name q) (name p) = 0"
  by (simp add: same_sort_keys_def)

lemma same_keys_price_asc: "same_sort_keys lc ''price-asc'' q p \<longleftrightarrow> price q - price p = 0"
  by (simp add: same_sort_keys_def)

lemma same_keys_price_desc: "same_sort_keys lc ''price-desc'' q p \<longleftrightarrow> price p - price q = 0"
proof -
  have "same_sort_keys lc ''price-desc'' q p \<longleftrightarrow> price q = price p"
    by (simp add: same_sort_keys_def)
  then show ?thesis by auto
qed

lemma same_keys_rating:
  "same_sort_keys lc ''rating'' q p \<longleftrightarrow>
     (if rating p \<noteq> rating q then rating p - rating q
      else reviewCountOr0 p - reviewCountOr0 q) = 0"
proof -
  have "same_sort_keys lc ''rating'' q p \<longleftrightarrow>
          rating q = rating p \<and> reviews_or_zero q = reviews_or_zero p"
    by (simp add: same_sort_keys_def)
  then show ?thesis by (auto simp: reviewCountOr0_eq)
qed

lemma same_keys_reviews:
  "same_sort_keys lc ''reviews'' q p \<longleftrightarrow>
     (let aReviews = reviewCountOr0 q; bReviews = reviewCountOr0 p in
      if bReviews \<noteq> aReviews then bReviews - aReviews else rating p - rating q) = 0"
proof -
  have "same_sort_keys lc ''reviews'' q p \<longleftrightarrow>
          rating q = rating p \<and> reviews_or_zero q = reviews_or_zero p"
    by (simp add: same_sort_keys_def)
  then show ?thesis by (auto simp: reviewCountOr0_eq Let_def)
qed

lemma rating_cmp_order:
  "(if rating b \<noteq> rating a then rating b - rating a
    else reviewCountOr0 b - reviewCountOr0 a) \<le> 0 \<Longrightarrow> rating_order a b"
  by (auto simp: rating_order_def reviewCountOr0_eq split: if_splits)

lemma reviews_cmp_order:
  "(let aReviews = reviewCountOr0 a; bReviews = reviewCountOr0 b in
    if bReviews \<noteq> aReviews then bReviews - aReviews else rating b - rating a) \<le> 0
   \<Longrightarrow> reviews_order a b"
  by (auto simp: reviews_order_def reviewCountOr0_eq Let_def split: if_splits)

section \<open>Helper facts of the filter module\<close>

lemma matchesCriteria_iff: "matchesCriteria c p \<longleftrightarrow> satisfies_criteria c p"
  by (auto simp: matchesCriteria_def satisfies_criteria_def includes_str_sublist trim_def
      split: option.splits)

lemma Math_min_Min: "Math_min m xs = Min (insert m (set xs))"
proof (induction xs arbitrary: m)
  case Nil
  then show ?case by simp
next
  case (Cons x xs)
  have "Min (insert (if x < m then x else m) (set xs)) = Min (insert m (insert x (set xs)))"
    by (cases "set xs = {}") (auto simp: min_def)
  with Cons show ?case by simp
qed

lemma Math_max_Max: "Math_max m xs = Max (insert m (set xs))"
proof (induction xs arbitrary: m)
  case Nil
  then show ?case by simp
next
  case (Cons x xs)
  have "Max (insert (if x > m then x else m) (set xs)) = Max (insert m (insert x (set xs)))"
    by (cases "set xs = {}") (auto simp: max_def)
  with Cons show ?case by simp
qed

lemma getPriceRange_within_limit:
  assumes "length P \<le> maxArguments"
  shows "getPriceRange maxArguments [] = Inr \<lparr>min_val = 0, max_val = 0\<rparr> \<and>
         (P \<noteq> [] \<longrightarrow>
            getPriceRange maxArguments P =
              Inr \<lparr>min_val = Min (price ` set P), max_val = Max (price ` set P)\<rparr>)"
proof (cases P)
  case Nil
  then show ?thesis by (simp add: getPriceRange_def)
next
  case (Cons p ps)
  with assms show ?thesis by (simp add: getPriceRange_def Math_min_Min Math_max_Max)
qed

lemma getPriceRange_too_long:
  assumes "maxArguments < length P"
  shows "getPriceRange maxArguments P = Inl RangeError"
proof -
  from assms have "P \<noteq> []" by auto
  with assms show ?thesis by (simp add: getPriceRange_def)
qed

lemma set_array_sort: "set (array_sort cmp xs) = set xs"
  using mset_array_sort [of cmp xs] by (metis set_mset_mset)

lemma set_foldl_set_add: "set (foldl set_add acc xs) = set acc \<union> set xs"
  by (induction xs arbitrary: acc) (auto simp: set_add_def)

lemma set_new_Set: "set (new_Set xs) = set xs"
  by (simp add: new_Set_def set_foldl_set_add)

lemma set_getCategories: "set (getCategories P) = category ` set P"
  by (simp add: getCategories_def set_array_sort set_new_Set)

lemma proto_not_safe: "k \<notin> set object_prototype_keys \<Longrightarrow> k \<noteq> ''__proto__''"
  by (auto simp: object_prototype_keys_def)

lemma count_step_safe:
  assumes "good_counts m" and "category p \<notin> set object_prototype_keys"
  shows "count_step m p =
           m(category p \<mapsto> Number (case m (category p) of None \<Rightarrow> 1 | Some v \<Rightarrow> count_value v + 1))"
proof (cases "m (category p)")
  case None
  with assms(2) proto_not_safe [OF assms(2)] show ?thesis
    by (simp add: count_step_def obj_get_def obj_set_def)
next
  case (Some v)
  with assms(1) obtain n where "n > 0" "v = Number n"
    unfolding good_counts_def by blast
  with Some proto_not_safe [OF assms(2)] show ?thesis
    by (simp add: count_step_def obj_get_def obj_set_def count_value_def)
qed

lemma good_counts_step:
  assumes "good_counts m" and "category p \<notin> set object_prototype_keys"
  shows "good_counts (count_step m p)"
  unfolding count_step_safe [OF assms] using assms(1)
  by (auto simp: good_counts_def split: option.splits)

lemma foldl_count_step_safe:
  assumes "good_counts m" and "\<forall>p \<in> set P. category p \<notin> set object_prototype_keys"
  shows "foldl count_step m P k =
           (case m k of
              None \<Rightarrow> if count_list (map category P) k = 0 then None
                      else Some (Number (count_list (map category P) k))
            | Some v \<Rightarrow> Some (Number (count_value v + count_list (map category P) k)))"
  using assms
proof (induction P arbitrary: m)
  case Nil
  show ?case
  proof (cases "m k")
    case None
    then show ?thesis by simp
  next
    case (Some v)
    with Nil(1) obtain n where "v = Number n" unfolding good_counts_def by blast
    with Some show ?thesis by (simp add: count_value_def)
  qed
next
  case (Cons p P)
  then have safe: "category p \<notin> set object_prototype_keys" by simp
  have g: "good_counts (count_step m p)"
    by (rule good_counts_step [OF Cons.prems(1) safe])
  have "foldl count_step (count_step m p) P k =
          (case count_step m p k of
              None \<Rightarrow> if count_list (map category P) k = 0 then None
                      else Some (Number (count_list (map category P) k))
            | Some v \<Rightarrow> Some (Number (count_value v + count_list (map category P) k)))"
    using Cons.IH [OF g] Cons.prems(2) by simp
  then show ?case
    by (auto simp: count_step_safe [OF Cons.prems(1) safe] count_value_def split: option.splits)
qed

lemma countProductsByCategory_safe_lookup:
  assumes "\<forall>p \<in> set P. category p \<notin> set object_prototype_keys"
  shows "countProductsByCategory P k =
           (if k \<in> category ` set P then Some (Number (count_list (map category P) k)) else None)"
proof -
  have "good_counts Map.empty" by (simp add: good_counts_def)
  from foldl_count_step_safe [OF this assms, of k] show ?thesis
    by (auto simp: countProductsByCategory_def count_list_0_iff)
qed

lemma countProductsByCategory_safe:
  assumes "\<forall>p \<in> set P. category p \<notin> set object_prototype_keys"
  shows "dom (countProductsByCategory P) = set (getCategories P)"
    and "\<forall>k \<in> dom (countProductsByCategory P). \<exists>n>0. countProductsByCategory P k = Some (Number n)"
    and "(\<Sum>k \<in> dom (countProductsByCategory P). count_value (the (countProductsByCategory P k)))
           = length P"
proof -
  note lk = countProductsByCategory_safe_lookup [OF assms]
  show d: "dom (countProductsByCategory P) = set (getCategories P)"
    by (auto simp: lk set_getCategories dom_def)
  show "\<forall>k \<in> dom (countProductsByCategory P). \<exists>n>0. countProductsByCategory P k = Some (Number n)"
  proof
    fix k assume "k \<in> dom (countProductsByCategory P)"
    then have "k \<in> set (map category P)" by (auto simp: lk split: if_splits)
    then have "count_list (map category P) k > 0" using count_list_0_iff [of "map category P" k] by simp
    moreover from \<open>k \<in> set (map category P)\<close>
    have "countProductsByCategory P k = Some (Number (count_list (map category P) k))"
      by (simp add: lk)
    ultimately show "\<exists>n>0. countProductsByCategory P k = Some (Number n)" by blast
  qed
  have "(\<Sum>k \<in> dom (countProductsByCategory P). count_value (the (countProductsByCategory P k)))
          = (\<Sum>k \<in> set (map category P). count_list (map category P) k)"
    unfolding d set_getCategories by (rule sum.cong) (auto simp: lk count_value_def)
  also have "\<dots> = length (map category P)"
    by (rule sum_count_set) simp_all
  finally show "(\<Sum>k \<in> dom (countProductsByCategory P). count_value (the (countProductsByCategory P k)))
           = length P" by simp
qed

section \<open>Claims\<close>

text \<open>
  C1, as the code has it: given a search term \<open>t\<close>, a product passes all criteria if and only
  if it passes the other criteria and either \<open>t\<close> is blank (empty after trimming) or the
  lower-cased name contains the lower-cased term as a substring. The term is matched as it
  was given: trimming decides only whether the term is blank.
\<close>

theorem searchTerm_criterion:
  assumes "searchTerm c = Some t"
  shows "matchesCriteria c p \<longleftrightarrow>
           matchesCriteria (c\<lparr>searchTerm := None\<rparr>) p \<and>
           (trim t = [] \<or> sublist (toLowerCase t) (toLowerCase (name p)))"
  using assms
  by (auto simp: matchesCriteria_def includes_str_sublist trim_def split: option.splits)

theorem searchTerm_criterion_witness:
  "searchTerm (only_searchTerm ''an'') = Some ''an'' \<and>
   matchesCriteria (only_searchTerm ''an'') productB \<and>
   filterProducts [productA, productB] (only_searchTerm ''an'') = [productB]"
proof -
  have s: "searchTerm (only_searchTerm ''an'') = Some ''an''"
    by (simp add: only_searchTerm_def)
  have "includes_str (toLowerCase (name productB)) (toLowerCase ''an'')"
    by code_simp
  then have "sublist (toLowerCase ''an'') (toLowerCase (name productB))"
    by (simp only: includes_str_sublist)
  moreover have "matchesCriteria ((only_searchTerm ''an'')\<lparr>searchTerm := None\<rparr>) productB"
    by (simp add: only_searchTerm_def matchesCriteria_def)
  ultimately have m: "matchesCriteria (only_searchTerm ''an'') productB"
    using searchTerm_criterion [OF s, of productB] by simp
  have "filterProducts [productA, productB] (only_searchTerm ''an'') = [productB]"
    by code_simp
  with s m show ?thesis by simp
qed

text \<open>
  Matching the trimmed term is not what the code does: the name \<open>Ann\<close> contains \<open>an\<close>, the
  trimmed term of \<open>'' an''\<close>, and yet the product is filtered out.
\<close>

theorem searchTerm_trimmed_counterexample:
  "search_criterion_trimmed '' an'' productB \<and>
   filterProducts [productB] (only_searchTerm '' an'') = []"
proof -
  have "includes_str (toLowerCase (name productB)) (toLowerCase (trim '' an''))"
    by code_simp
  then have "search_criterion_trimmed '' an'' productB"
    by (simp only: search_criterion_trimmed_def includes_str_sublist simp_thms)
  moreover have "filterProducts [productB] (only_searchTerm '' an'') = []"
    by code_simp
  ultimately show ?thesis by simp
qed

text \<open>
  C2, as the code has it: the result of \<open>filterProducts\<close> is a subsequence of the input, and
  it consists of exactly the products of the input that satisfy every supplied criterion:
  category membership for a non-empty selection, the inclusive price range, the minimum rating
  and, for a search term that is not blank, that the lower-cased name contains the lower-cased
  term as it was supplied, untrimmed. A criterion that is not supplied does not constrain.
\<close>

theorem filterProducts_spec:
  "subseq (filterProducts P c) P \<and>
   filterProducts P c = filter (satisfies_criteria c) P \<and>
   set (filterProducts P c) = {p \<in> set P. satisfies_criteria c p}"
proof -
  have "filterProducts P c = filter (satisfies_criteria c) P"
    by (simp add: filterProducts_def matchesCriteria_iff cong: filter_cong)
  then show ?thesis by simp
qed

theorem filterProducts_spec_witness:
  "filterProducts [productA, productB, productC] sample_criteria = [productA, productC] \<and>
   filter (satisfies_criteria sample_criteria) [productA, productB, productC] =
     [productA, productC]"
proof -
  have v: "filterProducts [productA, productB, productC] sample_criteria = [productA, productC]"
    by code_simp
  have "filterProducts [productA, productB, productC] sample_criteria =
      filter (satisfies_criteria sample_criteria) [productA, productB, productC]"
    using filterProducts_spec [of "[productA, productB, productC]" sample_criteria]
    by (rule conjunct1 [OF conjunct2])
  from this [symmetric] v
  have "filter (satisfies_criteria sample_criteria) [productA, productB, productC] =
      [productA, productC]"
    by (rule trans)
  with v show ?thesis by (rule conjI)
qed

text \<open>
  With the search criterion on the trimmed term the equivalence fails: for the term
  \<open>'' an''\<close> the product named \<open>Ann\<close> is in the input and satisfies every supplied
  criterion, and it is not in the result.
\<close>

theorem filterProducts_trimmed_counterexample:
  "productB \<in> set [productB] \<and>
   satisfies_criteria_trimmed (only_searchTerm '' an'') productB \<and>
   productB \<notin> set (filterProducts [productB] (only_searchTerm '' an''))"
proof -
  have "includes_str (toLowerCase (name productB)) (toLowerCase (trim '' an''))"
    by code_simp
  then have "sublist (toLowerCase (trim '' an'')) (toLowerCase (name productB))"
    by (simp only: includes_str_sublist)
  then have a: "satisfies_criteria_trimmed (only_searchTerm '' an'') productB"
    by (simp add: satisfies_criteria_trimmed_def only_searchTerm_def)
  have "filterProducts [productB] (only_searchTerm '' an'') = []"
    by code_simp
  then have b: "productB \<notin> set (filterProducts [productB] (only_searchTerm '' an''))"
    by (simp only: list.set empty_iff not_False_eq_True)
  have c: "productB \<in> set [productB]"
    by (simp only: list.set insert_iff simp_thms)
  from c a b show ?thesis by (intro conjI)
qed

text \<open>
  C3: for a sort option outside the six recognized tags \<open>sortProducts\<close> returns the products
  in their input order. The function has no failing branch.
\<close>

theorem sortProducts_unrecognized:
  assumes "s \<notin> set recognized_options"
  shows "sortProducts lc P s = P"
  using assms by (simp add: sortProducts_def recognized_options_def)

theorem sortProducts_unrecognized_witness:
  "''newest'' \<notin> set recognized_options \<and>
   sortProducts default_compare [productA, productB] ''newest'' = [productA, productB]"
proof -
  have h: "''newest'' \<notin> set recognized_options"
    by (simp add: recognized_options_def)
  from sortProducts_unrecognized [OF h] h show ?thesis by simp
qed

text \<open>
  C4: sorting twice with the same recognized option gives what sorting once gives, for
  every \<open>localeCompare\<close> that is a consistent comparator, as the language requires of it.
\<close>

theorem sortProducts_idempotent:
  assumes "consistent_comparator lc" and "s \<in> set recognized_options"
  shows "sortProducts lc (sortProducts lc P s) s = sortProducts lc P s"
proof -
  note cs = consistent_name_asc [OF assms(1)] consistent_name_desc [OF assms(1)]
    consistent_price_asc consistent_price_desc consistent_rating consistent_reviews
  from assms(2) show ?thesis
  proof (cases rule: recognized_cases)
    case 1 then show ?thesis by (simp add: sortProducts_def array_sort_idem cs)
  next
    case 2 then show ?thesis by (simp add: sortProducts_def array_sort_idem cs)
  next
    case 3 then show ?thesis by (simp add: sortProducts_def array_sort_idem cs)
  next
    case 4 then show ?thesis by (simp add: sortProducts_def array_sort_idem cs)
  next
    case 5 then show ?thesis by (simp add: sortProducts_def array_sort_idem cs)
  next
    case 6 then show ?thesis
      using array_sort_idem [OF consistent_reviews] by (simp add: sortProducts_def)
  qed
qed

theorem sortProducts_idempotent_witness:
  "consistent_comparator default_compare \<and> ''name-asc'' \<in> set recognized_options \<and>
   sortProducts default_compare
     (sortProducts default_compare [productA, productB] ''name-asc'') ''name-asc'' =
   [productB, productA]"
proof -
  have h: "''name-asc'' \<in> set recognized_options"
    by (simp add: recognized_options_def)
  have "sortProducts default_compare [productA, productB] ''name-asc'' = [productB, productA]"
    by code_simp
  with sortProducts_idempotent [OF consistent_default_compare h, of "[productA, productB]"]
    consistent_default_compare h
  show ?thesis by simp
qed

text \<open>
  C5: the result of the option \<open>rating\<close> holds the products of the input, each as often as
  the input does, ordered by rating descending, equal ratings by review count descending with a
  missing count as zero; the result of the option \<open>reviews\<close> holds the products of the input
  ordered by review count descending (missing as zero), equal counts by rating descending.
\<close>

theorem sortProducts_rating_reviews:
  "mset (sortProducts lc P ''rating'') = mset P \<and>
   sorted_wrt rating_order (sortProducts lc P ''rating'') \<and>
   mset (sortProducts lc P ''reviews'') = mset P \<and>
   sorted_wrt reviews_order (sortProducts lc P ''reviews'')"
proof (intro conjI)
  show "mset (sortProducts lc P ''rating'') = mset P"
    by (simp only: sortProducts_rating mset_array_sort)
  show "mset (sortProducts lc P ''reviews'') = mset P"
    by (simp only: sortProducts_reviews mset_array_sort)
  have "sorted_wrt rating_order (array_sort (\<lambda>a b.
          if rating b \<noteq> rating a then rating b - rating a
          else reviewCountOr0 b - reviewCountOr0 a) P)"
    by (rule sorted_wrt_mono_rel [OF _ sorted_array_sort [OF consistent_rating]])
       (rule rating_cmp_order)
  then show "sorted_wrt rating_order (sortProducts lc P ''rating'')"
    by (simp only: sortProducts_rating)
  have "sorted_wrt reviews_order (array_sort (\<lambda>a b.
          let aReviews = reviewCountOr0 a; bReviews = reviewCountOr0 b in
          if bReviews \<noteq> aReviews then bReviews - aReviews
          else rating b - rating a) P)"
    by (rule sorted_wrt_mono_rel [OF _ sorted_array_sort [OF consistent_reviews]])
       (rule reviews_cmp_order)
  then show "sorted_wrt reviews_order (sortProducts lc P ''reviews'')"
    by (simp only: sortProducts_reviews)
qed

theorem sortProducts_rating_reviews_witness:
  "sortProducts default_compare [productA, productB] ''rating'' = [productB, productA] \<and>
   mset [productB, productA] = mset [productA, productB] \<and>
   sorted_wrt rating_order [productB, productA] \<and>
   sortProducts default_compare [productC, productA, productB] ''reviews'' =
     [productB, productA, productC] \<and>
   mset [productB, productA, productC] = mset [productC, productA, productB] \<and>
   sorted_wrt reviews_order [productB, productA, productC]"
proof -
  have v: "sortProducts default_compare [productA, productB] ''rating'' = [productB, productA]"
    by code_simp
  have w: "sortProducts default_compare [productC, productA, productB] ''reviews'' =
      [productB, productA, productC]"
    by code_simp
  note r = sortProducts_rating_reviews [of default_compare "[productA, productB]", unfolded v]
  note q = sortProducts_rating_reviews [of default_compare "[productC, productA, productB]",
      unfolded w]
  from r have r1: "mset [productB, productA] = mset [productA, productB]"
    and r2: "sorted_wrt rating_order [productB, productA]"
    by (rule conjunct1, rule conjunct1 [OF conjunct2])
  from q have q1: "mset [productB, productA, productC] = mset [productC, productA, productB]"
    and q2: "sorted_wrt reviews_order [productB, productA, productC]"
    by (rule conjunct1 [OF conjunct2 [OF conjunct2]],
        rule conjunct2 [OF conjunct2 [OF conjunct2]])
  from v r1 r2 w q1 q2 show ?thesis by (intro conjI)
qed

text \<open>
  C6 fails on a long list: with 200000 products the spread passes 200000 arguments to
  \<^verbatim>\<open>Math.min\<close>, and an engine that accepts no more than 125000 arguments in a call (the limit
  is the engine's; any limit below the length of the list gives the same) throws a
  \<^verbatim>\<open>RangeError\<close> where the least and the greatest price are expected.
\<close>

theorem getPriceRange_RangeError:
  "getPriceRange 125000 (replicate 200000 productA) = Inl RangeError"
proof (rule getPriceRange_too_long)
  have "length (replicate 200000 productA) = 200000"
    by (rule length_replicate)
  moreover have "(125000 :: nat) < 200000"
    by simp
  ultimately show "125000 < length (replicate 200000 productA)"
    by (simp only:)
qed

text \<open>
  Within the limit \<open>getPriceRange\<close> does what is expected of it: \<open>{min: 0, max: 0}\<close> for the
  empty list, the least and the greatest price for a non-empty one.
\<close>

lemma getPriceRange_within_limit_witness:
  "getPriceRange 125000 [productB, productA, productC] = Inr \<lparr>min_val = 10, max_val = 20\<rparr> \<and>
   Min (price ` set [productB, productA, productC]) = 10 \<and>
   Max (price ` set [productB, productA, productC]) = 20"
proof -
  have l: "length [productB, productA, productC] \<le> 125000" by simp
  have ne: "[productB, productA, productC] \<noteq> []" by simp
  have "Math_min (price productB) (map price [productA, productC]) = 10"
    by code_simp
  then have mn: "Min (price ` set [productB, productA, productC]) = 10"
    by (simp add: Math_min_Min)
  have "Math_max (price productB) (map price [productA, productC]) = 20"
    by code_simp
  then have mx: "Max (price ` set [productB, productA, productC]) = 20"
    by (simp add: Math_max_Max)
  from getPriceRange_within_limit [OF l] ne
  have "getPriceRange 125000 [productB, productA, productC] =
      Inr \<lparr>min_val = Min (price ` set [productB, productA, productC]),
           max_val = Max (price ` set [productB, productA, productC])\<rparr>"
    by blast
  with mn mx show ?thesis by (simp only: simp_thms)
qed


text \<open>
  C7: \<open>filterByCategories\<close> with an empty selection and no additional criteria (the argument
  left out, or given with every criterion absent) returns the products unchanged.
\<close>

theorem filterByCategories_empty:
  "filterByCategories P [] None = P \<and>
   filterByCategories P [] (Some \<lparr>priceRange = None, minRating = None, searchTerm = None\<rparr>) = P"
  by (simp add: filterByCategories_def filterProducts_def matchesCriteria_def)

text \<open>
  C8: \<open>sortProducts\<close> is stable for each of the six recognized options: for every product
  \<open>q\<close>, the products that agree with \<open>q\<close> on the sort keys of the option stand in the
  result in the order they have in the input. This holds for every \<open>localeCompare\<close> that is
  a consistent comparator.
\<close>

theorem sortProducts_stable:
  assumes "consistent_comparator lc" and "s \<in> set recognized_options"
  shows "filter (same_sort_keys lc s q) (sortProducts lc P s) = filter (same_sort_keys lc s q) P"
  using assms(2)
proof (cases rule: recognized_cases)
  case 1
  show ?thesis unfolding 1 sortProducts_name_asc
    by (rule array_sort_stable_keys [OF consistent_name_asc [OF assms(1)]]) (rule same_keys_name)
next
  case 2
  have k: "\<And>p. same_sort_keys lc ''name-desc'' q p \<longleftrightarrow> lc (name p) (name q) = 0"
    by (simp only: same_keys_name_desc consistent_sym [OF assms(1)])
  show ?thesis unfolding 2 sortProducts_name_desc
    by (rule array_sort_stable_keys [OF consistent_name_desc [OF assms(1)]]) (rule k)
next
  case 3
  show ?thesis unfolding 3 sortProducts_price_asc
    by (rule array_sort_stable_keys [OF consistent_price_asc]) (rule same_keys_price_asc)
next
  case 4
  show ?thesis unfolding 4 sortProducts_price_desc
    by (rule array_sort_stable_keys [OF consistent_price_desc]) (rule same_keys_price_desc)
next
  case 5
  show ?thesis unfolding 5 sortProducts_rating
    by (rule array_sort_stable_keys [OF consistent_rating]) (rule same_keys_rating)
next
  case 6
  show ?thesis unfolding 6 sortProducts_reviews
    by (rule array_sort_stable_keys [OF consistent_reviews]) (rule same_keys_reviews)
qed

theorem sortProducts_stable_witness:
  "consistent_comparator default_compare \<and> ''price-asc'' \<in> set recognized_options \<and>
   sortProducts default_compare [productB, productA, productC] ''price-asc'' =
     [productA, productC, productB] \<and>
   filter (same_sort_keys default_compare ''price-asc'' productA)
     (sortProducts default_compare [productB, productA, productC] ''price-asc'') =
     [productA, productC]"
proof -
  have h: "''price-asc'' \<in> set recognized_options"
    by (simp add: recognized_options_def)
  have v: "sortProducts default_compare [productB, productA, productC] ''price-asc'' =
      [productA, productC, productB]"
    by code_simp
  have f: "filter (same_sort_keys default_compare ''price-asc'' productA)
      [productB, productA, productC] = [productA, productC]"
    by code_simp
  from sortProducts_stable [OF consistent_default_compare h, of productA
      "[productB, productA, productC]"]
  have "filter (same_sort_keys default_compare ''price-asc'' productA)
      (sortProducts default_compare [productB, productA, productC] ''price-asc'') =
      [productA, productC]"
    by (simp only: f)
  with consistent_default_compare h v show ?thesis by simp
qed

text \<open>
  C9: for every sort option, recognized or not, the result of \<open>sortProducts\<close> is a
  permutation of the input: the same products with the same multiplicities, hence the same
  length.
\<close>

theorem sortProducts_permutation:
  "mset (sortProducts lc P s) = mset P \<and> length (sortProducts lc P s) = length P"
proof -
  have "mset (sortProducts lc P s) = mset P"
    by (simp add: sortProducts_def mset_array_sort)
  then show ?thesis using mset_eq_length by blast
qed

text \<open>
  C10 fails for a category that names a member of \<open>Object.prototype\<close>: the one product of
  category \<open>constructor\<close> is counted as \<open>NaN\<close>, which is neither positive nor sums to the
  length of the list.
\<close>

theorem countProductsByCategory_constructor:
  "countProductsByCategory [productD] = [''constructor'' \<mapsto> NaN] \<and>
   getCategories [productD] = [''constructor'']"
  by (simp add: productD_def countProductsByCategory_def count_step_def obj_get_def obj_set_def
      object_prototype_keys_def getCategories_def new_Set_def set_add_def array_sort_def)

text \<open>
  For products none of whose categories names a member of \<open>Object.prototype\<close> the keys are
  the categories, the counts are positive and they sum to the number of products.
\<close>

lemma countProductsByCategory_safe_witness:
  "dom (countProductsByCategory [productA, productB, productC]) = {''X'', ''Y''} \<and>
   (\<Sum>k \<in> dom (countProductsByCategory [productA, productB, productC]).
      count_value (the (countProductsByCategory [productA, productB, productC] k))) = 3"
proof -
  have s: "\<forall>p \<in> set [productA, productB, productC]. category p \<notin> set object_prototype_keys"
    by (simp add: productA_def productB_def productC_def object_prototype_keys_def)
  have "set (getCategories [productA, productB, productC]) = {''X'', ''Y''}"
    by (auto simp: set_getCategories productA_def productB_def productC_def)
  with countProductsByCategory_safe(1,3) [OF s] show ?thesis by simp
qed

end
